theory Spec2Isabelle
  imports Complex_Main
begin

section \<open>Text\<close>

text \<open>
  A Python string is modelled as a \<open>string\<close> whose characters are the code points
  0..255 (Latin-1); code points above 255 are outside the type. On these,
  \<open>str.lower\<close> maps \<open>A\<close>..\<open>Z\<close> and the capital letters 0xC0..0xDE (all but the
  multiplication sign 0xD7) to the letter 32 places up, and leaves every other
  character as it is. \<open>str.strip\<close> without an argument removes the leading and
  trailing whitespace: tab, line feed, vertical tab, form feed, carriage return, the
  four separators 0x1C..0x1F, the space, the next-line control 0x85 and the no-break
  space 0xA0. \<open>\d\<close> of a regular expression matches \<open>0\<close>..\<open>9\<close>, the only decimal
  digits below 256.
\<close>

definition upper_letters :: string where
  "upper_letters =
     ''ABCDEFGHIJKLMNOPQRSTUVWXYZ''
     @ [CHR 0xC0, CHR 0xC1, CHR 0xC2, CHR 0xC3, CHR 0xC4, CHR 0xC5, CHR 0xC6, CHR 0xC7,
        CHR 0xC8, CHR 0xC9, CHR 0xCA, CHR 0xCB, CHR 0xCC, CHR 0xCD, CHR 0xCE, CHR 0xCF,
        CHR 0xD0, CHR 0xD1, CHR 0xD2, CHR 0xD3, CHR 0xD4, CHR 0xD5, CHR 0xD6,
        CHR 0xD8, CHR 0xD9, CHR 0xDA, CHR 0xDB, CHR 0xDC, CHR 0xDD, CHR 0xDE]"

definition lower_letters :: string where
  "lower_letters =
     ''abcdefghijklmnopqrstuvwxyz''
     @ [CHR 0xE0, CHR 0xE1, CHR 0xE2, CHR 0xE3, CHR 0xE4, CHR 0xE5, CHR 0xE6, CHR 0xE7,
        CHR 0xE8, CHR 0xE9, CHR 0xEA, CHR 0xEB, CHR 0xEC, CHR 0xED, CHR 0xEE, CHR 0xEF,
        CHR 0xF0, CHR 0xF1, CHR 0xF2, CHR 0xF3, CHR 0xF4, CHR 0xF5, CHR 0xF6,
        CHR 0xF8, CHR 0xF9, CHR 0xFA, CHR 0xFB, CHR 0xFC, CHR 0xFD, CHR 0xFE]"

definition lower_char :: "char \<Rightarrow> char" where
  "lower_char c = (case map_of (zip upper_letters lower_letters) c of Some d \<Rightarrow> d | None \<Rightarrow> c)"

definition str_lower :: "string \<Rightarrow> string" where
  "str_lower s = map lower_char s"

definition is_space :: "char \<Rightarrow> bool" where
  "is_space c \<longleftrightarrow>
     c \<in> set [CHR 0x09, CHR 0x0A, CHR 0x0B, CHR 0x0C, CHR 0x0D,
              CHR 0x1C, CHR 0x1D, CHR 0x1E, CHR 0x1F, CHR '' '', CHR 0x85, CHR 0xA0]"

definition str_lstrip :: "string \<Rightarrow> string" where
  "str_lstrip s = dropWhile is_space s"

definition str_rstrip :: "string \<Rightarrow> string" where
  "str_rstrip s = rev (dropWhile is_space (rev s))"

definition str_strip :: "string \<Rightarrow> string" where
  "str_strip s = str_rstrip (str_lstrip s)"

text \<open>\<open>s.lstrip(chars)\<close>: the leading characters that occur in \<open>chars\<close> are removed.\<close>

definition lstrip_chars :: "string \<Rightarrow> string \<Rightarrow> string" where
  "lstrip_chars chars s = dropWhile (\<lambda>c. c \<in> set chars) s"

definition is_digit :: "char \<Rightarrow> bool" where
  "is_digit c \<longleftrightarrow> c \<in> set ''0123456789''"

fun startswith :: "string \<Rightarrow> string \<Rightarrow> bool" where
  "startswith [] s = True"
| "startswith (p # ps) [] = False"
| "startswith (p # ps) (c # cs) = (p = c \<and> startswith ps cs)"

definition endswith :: "string \<Rightarrow> string \<Rightarrow> bool" where
  "endswith suffix s = startswith (rev suffix) (rev s)"

text \<open>\<open>sub in s\<close> of Python: \<open>sub\<close> occurs in \<open>s\<close> as a contiguous run.\<close>

fun contains :: "string \<Rightarrow> string \<Rightarrow> bool" where
  "contains sub [] = (sub = [])"
| "contains sub (c # cs) = (startswith sub (c # cs) \<or> contains sub cs)"

text \<open>
  \<open>s.replace(old, new)\<close>: one pass from the left over the occurrences of \<open>old\<close> that
  do not overlap, each replaced by \<open>new\<close>. With an empty \<open>old\<close>, Python puts \<open>new\<close>
  before every character and at the end.
\<close>

fun str_replace :: "string \<Rightarrow> string \<Rightarrow> string \<Rightarrow> string" where
  "str_replace old new [] = (if old = [] then new else [])"
| "str_replace old new (c # cs) =
     (if old = [] then new @ concat (map (\<lambda>d. d # new) (c # cs))
      else if startswith old (c # cs)
        then new @ str_replace old new (drop (length old) (c # cs))
      else c # str_replace old new cs)"

text \<open>
  Truthiness of an optional text, as in \<open>x or default\<close> and \<open>if x\<close>: \<open>None\<close> and the
  empty text are false. \<open>get_or\<close> is \<open>dict.get\<close> with a default, on the result of a lookup.
\<close>

definition truthy :: "string option \<Rightarrow> bool" where
  "truthy x = (case x of None \<Rightarrow> False | Some s \<Rightarrow> s \<noteq> [])"

definition get_or :: "'a option \<Rightarrow> 'a \<Rightarrow> 'a" where
  "get_or x d = (case x of None \<Rightarrow> d | Some v \<Rightarrow> v)"

section \<open>Phone number validation\<close>

text \<open>
  The \<open>phonenumbers\<close> package is a third-party library and not part of the repository.
  The four functions \<open>validate_phone\<close> calls are parameters of the model, over any type
  \<open>'p\<close> of parsed numbers: \<open>parse\<close> takes the text and the default region and gives
  \<open>None\<close> where the library raises \<open>NumberParseException\<close>. A fifth function of the
  library, \<open>is_valid_number_for_region\<close>, is not called by the code: the
  specification's validity for region IN is stated with it.
\<close>

datatype PhoneNumberType =
  FIXED_LINE | MOBILE | FIXED_LINE_OR_MOBILE | TOLL_FREE | PREMIUM_RATE | SHARED_COST
  | VOIP | PERSONAL_NUMBER | PAGER | UAN | VOICEMAIL | UNKNOWN

datatype PhoneNumberFormat = E164 | INTERNATIONAL | NATIONAL | RFC3966

record 'p phonenumbers =
  parse :: "string \<Rightarrow> string \<Rightarrow> 'p option"
  is_valid_number :: "'p \<Rightarrow> bool"
  number_type :: "'p \<Rightarrow> PhoneNumberType"
  format_number :: "'p \<Rightarrow> PhoneNumberFormat \<Rightarrow> string"
  is_valid_number_for_region :: "'p \<Rightarrow> string \<Rightarrow> bool"

text \<open>\<open>re.sub(r"[^\d+]", "", raw)\<close>: every character that is neither a digit nor \<open>+\<close> is removed.\<close>

definition cleaned :: "string \<Rightarrow> string" where
  "cleaned raw = filter (\<lambda>c. is_digit c \<or> c = CHR ''+'') raw"

text \<open>The list the loop runs over: \<open>[cleaned, f"+91{cleaned.lstrip('0')}"]\<close>.\<close>

definition candidates :: "string \<Rightarrow> string list" where
  "candidates raw = [cleaned raw, ''+91'' @ lstrip_chars ''0'' (cleaned raw)]"

definition valid_types :: "PhoneNumberType set" where
  "valid_types = {MOBILE, FIXED_LINE, FIXED_LINE_OR_MOBILE}"

text \<open>
  The body of the loop for one candidate: \<open>Some\<close> is the \<open>return\<close>; \<open>None\<close> is the
  \<open>continue\<close> after a parse error, or falling through to the next candidate.
\<close>

definition attempt :: "'p phonenumbers \<Rightarrow> string \<Rightarrow> string option" where
  "attempt L candidate =
     (case parse L candidate ''IN'' of
        None \<Rightarrow> None
      | Some parsed \<Rightarrow>
          if is_valid_number L parsed then
            (let t = number_type L parsed
             in if t \<in> valid_types then Some (format_number L parsed E164) else None)
          else None)"

text \<open>
  The loop, with the candidates handed to \<open>parse\<close> recorded in order next to the
  result, so that the number of parse attempts can be stated.
\<close>

fun try_candidates :: "'p phonenumbers \<Rightarrow> string list \<Rightarrow> string option \<times> string list" where
  "try_candidates L [] = (None, [])"
| "try_candidates L (candidate # rest) =
     (case attempt L candidate of
        Some e164 \<Rightarrow> (Some e164, [candidate])
      | None \<Rightarrow> (let (result, parsed) = try_candidates L rest in (result, candidate # parsed)))"

definition validate_phone_run :: "'p phonenumbers \<Rightarrow> string option \<Rightarrow> string option \<times> string list" where
  "validate_phone_run L raw =
     (case raw of
        None \<Rightarrow> (None, [])
      | Some s \<Rightarrow> if s = [] then (None, []) else try_candidates L (candidates s))"

definition validate_phone :: "'p phonenumbers \<Rightarrow> string option \<Rightarrow> string option" where
  "validate_phone L raw = fst (validate_phone_run L raw)"

section \<open>Record extraction\<close>

text \<open>
  A cell of a record or a table holds a text or a number. A raw listing is the
  dictionary the provider returns, with the keys \<open>extract_record\<close> reads; a key that is
  absent is \<open>None\<close>. The record returned is a Python dictionary, kept as the list of its
  entries in the order they are written. \<open>TODAY\<close> is the date stamp of the run.
\<close>

datatype cell = Text string | Number rat

type_synonym vendor_record = "(string \<times> cell) list"

record place =
  permanently_closed :: "bool option"
  status :: "string option"
  phone :: "string option"
  website :: "string option"
  links :: "(string \<rightharpoonup> string) option"
  title :: "string option"
  address :: "string option"
  rating :: "rat option"
  reviews :: "int option"
  link :: "string option"

definition extract_record ::
  "'p phonenumbers \<Rightarrow> string \<Rightarrow> place \<Rightarrow> string \<Rightarrow> vendor_record option" where
  "extract_record L TODAY place category =
     (if permanently_closed place = Some True
         \<or> contains ''permanently closed'' (str_lower (get_or (status place) ''''))
      then None
      else
        (let raw_phone = phone place;
             validated_phone = validate_phone L raw_phone;
             site = (if truthy (website place) then get_or (website place) ''''
                     else get_or (get_or (links place) Map.empty ''website'') ''N/A'')
         in Some
           [(''Category'', Text (str_strip (str_replace '' Bangalore'' '''' category))),
            (''Business Name'', Text (get_or (title place) ''N/A'')),
            (''Phone Number (E.164)'',
               Text (if truthy validated_phone then get_or validated_phone '''' else ''Not Available'')),
            (''Phone Valid'', Text (if truthy validated_phone then ''Yes'' else ''No'')),
            (''Address'', Text (get_or (address place) ''N/A'')),
            (''Rating'', (case rating place of None \<Rightarrow> Text ''N/A'' | Some r \<Rightarrow> Number r)),
            (''Total Reviews'', Number (of_int (get_or (reviews place) 0))),
            (''Website'', Text (if site \<noteq> [] then site else ''N/A'')),
            (''Google Maps Link'', Text (get_or (link place) ''N/A'')),
            (''Date Collected'', Text TODAY)]))"

definition field_of :: "string \<Rightarrow> vendor_record option \<Rightarrow> cell option" where
  "field_of name r = (case r of None \<Rightarrow> None | Some entries \<Rightarrow> map_of entries name)"

section \<open>Tables\<close>

text \<open>
  A missing cell of a table (pandas' NaN) is \<open>None\<close>. A row maps column names to cells.
  A \<open>DataFrame\<close> is the list of its column names, the dtype of each column and its
  rows in index order; \<open>len(df)\<close> is the number of rows. A column that holds a text is
  of object dtype in pandas; a column of numbers and missing cells only is numeric, or
  of object dtype when it was built from Python objects. A series is a dtype and its
  cells.
\<close>

type_synonym row = "string \<rightharpoonup> cell"

datatype dtype = ObjectDtype | NumericDtype

type_synonym series = "dtype \<times> cell option list"

record dataframe =
  columns :: "string list"
  dtypes :: "string \<Rightarrow> dtype"
  rows :: "row list"

datatype py_error = KeyError string | AttributeError

definition is_text :: "cell option \<Rightarrow> bool" where
  "is_text x = (case x of Some (Text s) \<Rightarrow> True | _ \<Rightarrow> False)"

definition is_number :: "cell option \<Rightarrow> bool" where
  "is_number x = (case x of Some (Number n) \<Rightarrow> True | _ \<Rightarrow> False)"

text \<open>
  \<open>pd.DataFrame(records)\<close> on a list of dictionaries: the columns are the keys in the
  order of their first appearance, and there is none when the list is empty. A column
  with a text is of object dtype, a column of numbers is numeric.
\<close>

definition DataFrame :: "vendor_record list \<Rightarrow> dataframe" where
  "DataFrame records =
     \<lparr>columns = rev (remdups (rev (concat (map (map fst) records)))),
      dtypes = (\<lambda>c. if list_ex (\<lambda>r. is_text (map_of r c)) records then ObjectDtype
                     else NumericDtype),
      rows = map map_of records\<rparr>"

text \<open>\<open>df.empty\<close>: one of the two axes has length 0.\<close>

definition df_empty :: "dataframe \<Rightarrow> bool" where
  "df_empty df \<longleftrightarrow> rows df = [] \<or> columns df = []"

text \<open>\<open>df[c]\<close>: the column as a series, or \<open>KeyError\<close> when there is no such column.\<close>

definition getitem :: "dataframe \<Rightarrow> string \<Rightarrow> py_error + series" where
  "getitem df c =
     (if c \<in> set (columns df) then Inr (dtypes df c, map (\<lambda>r. r c) (rows df))
      else Inl (KeyError c))"

text \<open>
  The \<open>.str\<close> accessor of a series checks what the series holds before any method
  runs, and raises \<open>AttributeError\<close> unless it is texts, texts mixed with other values,
  or nothing at all in a column of object dtype (no cell, or missing cells only). A
  numeric column, and a column of numbers without a text, are refused.
\<close>

definition str_accessor_ok :: "series \<Rightarrow> bool" where
  "str_accessor_ok s \<longleftrightarrow>
     list_ex is_text (snd s) \<or> (fst s = ObjectDtype \<and> list_all (\<lambda>x. x = None) (snd s))"

text \<open>
  \<open>s.str.f()\<close> for a method \<open>f\<close> from texts to texts (\<open>lower\<close>, \<open>strip\<close>): after the
  check, the method works cell by cell and gives a missing value on a cell that is not
  a text. The result is a series of object dtype.
\<close>

definition str_cell :: "(string \<Rightarrow> string) \<Rightarrow> cell option \<Rightarrow> cell option" where
  "str_cell f x = (case x of Some (Text t) \<Rightarrow> Some (Text (f t)) | _ \<Rightarrow> None)"

definition series_str :: "(string \<Rightarrow> string) \<Rightarrow> series \<Rightarrow> py_error + series" where
  "series_str f s =
     (if str_accessor_ok s then Inr (ObjectDtype, map (str_cell f) (snd s))
      else Inl AttributeError)"

text \<open>
  Adding a text to a series of texts and missing cells, or two such series,
  concatenates cell by cell and is missing where an operand is.
\<close>

definition series_add_text :: "series \<Rightarrow> string \<Rightarrow> series" where
  "series_add_text s t =
     (ObjectDtype, map (\<lambda>x. case x of Some (Text u) \<Rightarrow> Some (Text (u @ t)) | _ \<Rightarrow> None) (snd s))"

definition series_add :: "series \<Rightarrow> series \<Rightarrow> series" where
  "series_add s1 s2 =
     (ObjectDtype,
      map (\<lambda>(x, y). case (x, y) of (Some (Text u), Some (Text v)) \<Rightarrow> Some (Text (u @ v)) | _ \<Rightarrow> None)
        (zip (snd s1) (snd s2)))"

text \<open>
  \<open>pd.concat([a, b], ignore_index=True)\<close>: the rows of \<open>a\<close>, then those of \<open>b\<close>, over
  the columns of both; a cell of a column the row's table does not have is missing. A
  column of both tables is of object dtype when it is in one of them.
\<close>

definition concat_df :: "dataframe \<Rightarrow> dataframe \<Rightarrow> dataframe" where
  "concat_df a b =
     \<lparr>columns = columns a @ filter (\<lambda>c. c \<notin> set (columns a)) (columns b),
      dtypes = (\<lambda>c. if c \<in> set (columns a) \<and> c \<in> set (columns b)
                       then (if dtypes a c = ObjectDtype \<or> dtypes b c = ObjectDtype
                             then ObjectDtype else NumericDtype)
                     else if c \<in> set (columns a) then dtypes a c
                     else dtypes b c),
      rows = map (\<lambda>r. r |` set (columns a)) (rows a) @ map (\<lambda>r. r |` set (columns b)) (rows b)\<rparr>"

section \<open>Deduplication\<close>

text \<open>
  \<open>make_key\<close> evaluates its expression from the left: the name column, its two
  \<open>.str\<close> methods, the separator, then the address column and its two \<open>.str\<close>
  methods. The first step that fails gives the error.
\<close>

definition make_key :: "dataframe \<Rightarrow> py_error + series" where
  "make_key df =
     (case getitem df ''Business Name'' of Inl e \<Rightarrow> Inl e | Inr names \<Rightarrow>
      case series_str str_lower names of Inl e \<Rightarrow> Inl e | Inr names_lower \<Rightarrow>
      case series_str str_strip names_lower of Inl e \<Rightarrow> Inl e | Inr names_key \<Rightarrow>
      case getitem df ''Address'' of Inl e \<Rightarrow> Inl e | Inr addresses \<Rightarrow>
      case series_str str_lower addresses of Inl e \<Rightarrow> Inl e | Inr addresses_lower \<Rightarrow>
      case series_str str_strip addresses_lower of Inl e \<Rightarrow> Inl e | Inr addresses_key \<Rightarrow>
        Inr (series_add (series_add_text names_key ''||'') addresses_key))"

definition deduplicate :: "dataframe \<Rightarrow> dataframe \<Rightarrow> py_error + (dataframe \<times> nat \<times> nat)" where
  "deduplicate new_df existing_df =
     (if df_empty existing_df then Inr (new_df, length (rows new_df), 0)
      else
        (case make_key existing_df of
           Inl e \<Rightarrow> Inl e
         | Inr existing_series \<Rightarrow>
             (case make_key new_df of
                Inl e \<Rightarrow> Inl e
              | Inr new_keys \<Rightarrow>
                  (let existing_keys = set (snd existing_series);
                       is_new = map (\<lambda>k. k \<notin> existing_keys) (snd new_keys);
                       new_only = new_df\<lparr>rows := map fst (filter snd (zip (rows new_df) is_new))\<rparr>;
                       duplicate_count = length (filter Not is_new)
                   in Inr (new_only, length (rows new_only), duplicate_count)))))"

text \<open>Step 4 of \<open>main\<close>: the table written back as the master file.\<close>

definition combined_df :: "dataframe \<Rightarrow> dataframe \<Rightarrow> dataframe" where
  "combined_df existing_df new_only_df =
     (if \<not> df_empty existing_df \<and> \<not> df_empty new_only_df then concat_df existing_df new_only_df
      else if \<not> df_empty existing_df then existing_df
      else new_only_df)"

section \<open>The specification's notions\<close>

text \<open>
  The Identity Key of a record, in the specification's words: the lowercased and
  trimmed business name, the separator, and the lowercased and trimmed address. It is
  missing when the name or the address is not a text.
\<close>

definition identity_key :: "row \<Rightarrow> cell option" where
  "identity_key r =
     (case (r ''Business Name'', r ''Address'') of
        (Some (Text n), Some (Text a)) \<Rightarrow>
          Some (Text (str_strip (str_lower n) @ ''||'' @ str_strip (str_lower a)))
      | _ \<Rightarrow> None)"

text \<open>A table has the two columns the key is made of.\<close>

definition has_key_columns :: "dataframe \<Rightarrow> bool" where
  "has_key_columns df \<longleftrightarrow> ''Business Name'' \<in> set (columns df) \<and> ''Address'' \<in> set (columns df)"

text \<open>
  A table of vendor records as the data model has them: the two key columns are there,
  and each holds a text, or nothing at all in object dtype, so that keys can be
  computed.
\<close>

definition key_ready :: "dataframe \<Rightarrow> bool" where
  "key_ready df \<longleftrightarrow>
     has_key_columns df
     \<and> str_accessor_ok (dtypes df ''Business Name'', map (\<lambda>r. r ''Business Name'') (rows df))
     \<and> str_accessor_ok (dtypes df ''Address'', map (\<lambda>r. r ''Address'') (rows df))"

text \<open>
  The stronger form that any selection of the rows keeps: the key columns are of
  object dtype and hold no number, only texts and missing cells.
\<close>

definition text_keys :: "dataframe \<Rightarrow> bool" where
  "text_keys df \<longleftrightarrow>
     has_key_columns df
     \<and> dtypes df ''Business Name'' = ObjectDtype \<and> dtypes df ''Address'' = ObjectDtype
     \<and> list_all (\<lambda>r. \<not> is_number (r ''Business Name'') \<and> \<not> is_number (r ''Address'')) (rows df)"

text \<open>
  No candidate of a raw phone string parses to a number whose validity differs from
  its validity for region IN: the raw string does not spell a number of another region.
\<close>

definition indian_candidates :: "'p phonenumbers \<Rightarrow> string \<Rightarrow> bool" where
  "indian_candidates L raw \<longleftrightarrow>
     list_all (\<lambda>c. case parse L c ''IN'' of
                      None \<Rightarrow> True
                    | Some p \<Rightarrow> is_valid_number L p = is_valid_number_for_region L p ''IN'')
       (candidates raw)"


text \<open>
  The category label in the specification's words: only a trailing region qualifier
  is removed, then the surrounding whitespace.
\<close>

definition spec_category :: "string \<Rightarrow> string" where
  "spec_category category =
     str_strip (if endswith '' Bangalore'' category
                then take (length category - length '' Bangalore'') category
                else category)"

section \<open>Sample data\<close>

text \<open>
  A small instance of the library's interface, for evaluating the model on concrete
  numbers. It knows two Indian mobile numbers and two Indian toll-free numbers, in the
  spellings listed, and fails to parse anything else. In the spelling with the
  international prefix \<open>00\<close> the country code 91 is followed by the toll-free number
  1800 1234, and with \<open>+91\<close> in front of those digits less their leading zeros the
  mobile number 91180 01234 is read.
\<close>

definition sample_phonenumbers :: "string phonenumbers" where
  "sample_phonenumbers =
     \<lparr>parse = (\<lambda>number region.
         if number \<in> set [''9876543210'', ''09876543210'', ''+919876543210'', ''919876543210'']
           then Some ''9876543210''
         else if number \<in> set [''18001234567'', ''+9118001234567''] then Some ''18001234567''
         else if number = ''009118001234'' then Some ''18001234''
         else if number = ''+919118001234'' then Some ''9118001234''
         else None),
       is_valid_number = (\<lambda>parsed. True),
       number_type = (\<lambda>parsed. if parsed \<in> set [''9876543210'', ''9118001234''] then MOBILE
                                else TOLL_FREE),
       format_number = (\<lambda>parsed fmt. ''+91'' @ parsed),
       is_valid_number_for_region = (\<lambda>parsed region. region = ''IN'')\<rparr>"

definition sample_place :: place where
  "sample_place =
     \<lparr>permanently_closed = None, status = Some ''Open'', phone = Some ''098765 43210'',
      website = None, links = None, title = Some ''Acme Tents'', address = Some ''MG Road'',
      rating = Some (9 / 2), reviews = Some 12, link = None\<rparr>"

definition sample_record :: vendor_record where
  "sample_record =
     [(''Category'', Text ''Tent House''),
      (''Business Name'', Text ''Acme Tents''),
      (''Phone Number (E.164)'', Text ''+919876543210''),
      (''Phone Valid'', Text ''Yes''),
      (''Address'', Text ''MG Road''),
      (''Rating'', Number (9 / 2)),
      (''Total Reviews'', Number 12),
      (''Website'', Text ''N/A''),
      (''Google Maps Link'', Text ''N/A''),
      (''Date Collected'', Text ''26-Feb-2026'')]"

definition vendor_row :: "string \<Rightarrow> string \<Rightarrow> row" where
  "vendor_row name addr = [''Business Name'' \<mapsto> Text name, ''Address'' \<mapsto> Text addr]"

definition vendor_frame :: "row list \<Rightarrow> dataframe" where
  "vendor_frame rs =
     \<lparr>columns = [''Business Name'', ''Address''], dtypes = (\<lambda>c. ObjectDtype), rows = rs\<rparr>"

definition scenario_hist :: dataframe where
  "scenario_hist = vendor_frame [vendor_row ''X'' ''Y'']"

definition scenario_new :: dataframe where
  "scenario_new = vendor_frame [vendor_row ''X'' ''Y'', vendor_row ''Z'' ''W'']"

section \<open>Facts about text\<close>

lemmas text_defs =
  str_strip_def str_lower_def str_lstrip_def str_rstrip_def is_space_def lower_char_def
  upper_letters_def lower_letters_def

lemma is_space_lower_char: "is_space (lower_char c) = is_space c"
  by (simp add: is_space_def lower_char_def upper_letters_def lower_letters_def)

text \<open>Lowercasing and trimming commute: the order of the two steps does not change a key.\<close>

lemma str_lower_strip_commute: "str_lower (str_strip s) = str_strip (str_lower s)"
proof -
  have c: "is_space \<circ> lower_char = is_space"
    by (rule ext) (simp add: is_space_lower_char)
  show ?thesis
    by (simp add: str_lower_def str_strip_def str_lstrip_def str_rstrip_def
        dropWhile_map rev_map c)
qed

lemma startswith_append: "startswith p (p @ s)"
  by (induction p) auto

lemma startswith_butlast:
  "startswith p xs \<Longrightarrow> length p < length xs \<Longrightarrow> startswith p (butlast xs)"
  by (induction p xs rule: startswith.induct) auto

lemma str_replace_suffix_only:
  assumes "old \<noteq> []" and "\<not> contains old (butlast (base @ old))"
  shows "str_replace old new (base @ old) = base @ new"
  using assms(2)
proof (induction base)
  case Nil
  obtain c cs where o: "old = c # cs" using assms(1) by (cases old) auto
  have "startswith old (c # cs)" using startswith_append [of old "[]"] o by simp
  then have "str_replace old new (c # cs) = new @ str_replace old new (drop (length old) (c # cs))"
    using assms(1) by simp
  then show ?case using o by simp
next
  case (Cons b bs)
  have bl: "butlast ((b # bs) @ old) = b # butlast (bs @ old)"
    using assms(1) by simp
  from Cons.prems have n1: "\<not> startswith old (b # butlast (bs @ old))"
    and n2: "\<not> contains old (butlast (bs @ old))"
    unfolding bl by simp_all
  have 0: "\<not> startswith old ((b # bs) @ old)"
  proof
    assume "startswith old ((b # bs) @ old)"
    then have "startswith old (butlast ((b # bs) @ old))"
      by (rule startswith_butlast) simp
    with n1 show False unfolding bl by simp
  qed
  from Cons.IH [OF n2] have "str_replace old new (bs @ old) = bs @ new" .
  with 0 assms(1) show ?case by simp
qed

lemma str_replace_absent:
  "old \<noteq> [] \<Longrightarrow> \<not> contains old s \<Longrightarrow> str_replace old new s = s"
  by (induction s) auto

section \<open>Facts about phone validation\<close>

lemma try_two:
  "try_candidates L [c1, c2] =
     (case attempt L c1 of Some v \<Rightarrow> (Some v, [c1]) | None \<Rightarrow> (attempt L c2, [c1, c2]))"
  by (simp split: option.splits)

lemma attempt_Some:
  "attempt L c = Some v \<longleftrightarrow>
     (\<exists>p. parse L c ''IN'' = Some p \<and> is_valid_number L p \<and> number_type L p \<in> valid_types
          \<and> v = format_number L p E164)"
  by (auto simp: attempt_def Let_def split: option.splits)

lemma validate_phone_candidate:
  assumes "validate_phone L (Some s) = Some v"
  shows "\<exists>c \<in> set (candidates s). attempt L c = Some v"
proof -
  from assms have "s \<noteq> []"
    by (auto simp: validate_phone_def validate_phone_run_def split: if_splits)
  with assms have "attempt L (cleaned s) = Some v
      \<or> attempt L (''+91'' @ lstrip_chars ''0'' (cleaned s)) = Some v"
    by (auto simp: validate_phone_def validate_phone_run_def candidates_def try_two
        split: option.splits)
  then show ?thesis by (auto simp: candidates_def)
qed

lemma validate_phone_Some:
  assumes "validate_phone L raw = Some v"
  shows "\<exists>p. v = format_number L p E164"
proof -
  from assms obtain s where "raw = Some s"
    by (cases raw) (auto simp: validate_phone_def validate_phone_run_def)
  with assms obtain c where "attempt L c = Some v"
    using validate_phone_candidate by blast
  then show ?thesis by (auto simp: attempt_Some)
qed

lemma validate_phone_not_placeholder:
  assumes "\<forall>p. \<exists>rest. format_number L p E164 = CHR ''+'' # rest"
  shows "validate_phone L raw \<noteq> Some ''Not Available''"
proof
  assume "validate_phone L raw = Some ''Not Available''"
  then obtain p where "''Not Available'' = format_number L p E164"
    using validate_phone_Some by blast
  moreover obtain rest where "format_number L p E164 = CHR ''+'' # rest"
    using assms by blast
  ultimately show False by simp
qed

lemma cleaned_digits: "\<forall>c \<in> set s. is_digit c \<Longrightarrow> cleaned s = s"
  by (simp add: cleaned_def)

lemma cleaned_append: "cleaned (a @ b) = cleaned a @ cleaned b"
  by (simp add: cleaned_def)

lemma validate_phone_first:
  assumes "s \<noteq> []" "cleaned s = s"
    and "parse L s ''IN'' = Some p" "is_valid_number L p" "number_type L p \<in> valid_types"
  shows "validate_phone L (Some s) = Some (format_number L p E164)"
proof -
  have "attempt L s = Some (format_number L p E164)"
    using assms(3-5) by (simp add: attempt_def)
  then show ?thesis
    using assms(1,2)
    by (simp add: validate_phone_def validate_phone_run_def candidates_def)
qed

lemmas sample_defs =
  sample_phonenumbers_def attempt_def valid_types_def cleaned_def is_digit_def
  lstrip_chars_def candidates_def

section \<open>Facts about record extraction\<close>

lemma extract_record_fields:
  assumes "extract_record L TODAY place category = Some r"
  shows "map_of r ''Category'' = Some (Text (str_strip (str_replace '' Bangalore'' '''' category)))"
    and "map_of r ''Phone Number (E.164)''
         = Some (Text (if truthy (validate_phone L (phone place))
                       then get_or (validate_phone L (phone place)) '''' else ''Not Available''))"
    and "map_of r ''Phone Valid''
         = Some (Text (if truthy (validate_phone L (phone place)) then ''Yes'' else ''No''))"
proof -
  let ?closed = "permanently_closed place = Some True
         \<or> contains ''permanently closed'' (str_lower (get_or (status place) ''''))"
  have nc: "\<not> ?closed"
    using assms by (rule contrapos_pp) (simp add: extract_record_def)
  from assms nc
  show "map_of r ''Category'' = Some (Text (str_strip (str_replace '' Bangalore'' '''' category)))"
    by (clarsimp simp: extract_record_def Let_def split del: if_split)
  from assms nc
  show "map_of r ''Phone Number (E.164)''
         = Some (Text (if truthy (validate_phone L (phone place))
                       then get_or (validate_phone L (phone place)) '''' else ''Not Available''))"
    by (clarsimp simp: extract_record_def Let_def split del: if_split)
  from assms nc
  show "map_of r ''Phone Valid''
         = Some (Text (if truthy (validate_phone L (phone place)) then ''Yes'' else ''No''))"
    by (clarsimp simp: extract_record_def Let_def split del: if_split)
qed

lemma sample_validate:
  "validate_phone sample_phonenumbers (Some ''098765 43210'') = Some ''+919876543210''"
  by (simp add: validate_phone_def validate_phone_run_def sample_defs)

lemma sample_open:
  "\<not> (permanently_closed sample_place = Some True
      \<or> contains ''permanently closed'' (str_lower (get_or (status sample_place) '''')))"
  by (simp add: sample_place_def get_or_def text_defs)

lemma sample_extract:
  "extract_record sample_phonenumbers ''26-Feb-2026'' sample_place ''Tent House Bangalore''
   = Some sample_record"
proof -
  have p: "phone sample_place = Some ''098765 43210''"
    by (simp add: sample_place_def)
  have c: "str_strip (str_replace '' Bangalore'' '''' ''Tent House Bangalore'') = ''Tent House''"
    by (simp add: text_defs)
  show ?thesis
    unfolding extract_record_def Let_def p sample_validate c
    using sample_open
    by (simp add: sample_place_def sample_record_def truthy_def get_or_def)
qed

section \<open>Facts about deduplication\<close>

lemma str_cell_text: "is_text (str_cell f x) = is_text x"
  by (simp add: str_cell_def is_text_def split: option.splits cell.splits)

lemma str_cell_None: "x = None \<Longrightarrow> str_cell f x = None"
  by (simp add: str_cell_def)

text \<open>A series a \<open>.str\<close> method returned passes the check of the next one.\<close>

lemma str_accessor_ok_result:
  "str_accessor_ok s \<Longrightarrow> str_accessor_ok (ObjectDtype, map (str_cell f) (snd s))"
  by (auto simp: str_accessor_ok_def list_ex_iff list_all_iff str_cell_text str_cell_None)

lemma series_str_twice:
  "str_accessor_ok s \<Longrightarrow>
     series_str f s = Inr (ObjectDtype, map (str_cell f) (snd s))
     \<and> series_str g (ObjectDtype, map (str_cell f) (snd s))
         = Inr (ObjectDtype, map (str_cell g) (map (str_cell f) (snd s)))"
  using str_accessor_ok_result [of s f] by (simp add: series_str_def)

lemma series_key:
  "map (\<lambda>(x, y). case (x, y) of (Some (Text u), Some (Text v)) \<Rightarrow> Some (Text (u @ v)) | _ \<Rightarrow> None)
     (zip (map (\<lambda>x. case x of Some (Text u) \<Rightarrow> Some (Text (u @ ''||'')) | _ \<Rightarrow> None)
             (map (str_cell str_strip) (map (str_cell str_lower) (map (\<lambda>r. r ''Business Name'') rs))))
          (map (str_cell str_strip) (map (str_cell str_lower) (map (\<lambda>r. r ''Address'') rs))))
   = map identity_key rs"
  by (induction rs)
     (auto simp: str_cell_def identity_key_def split: option.splits cell.splits)

text \<open>The keys \<open>make_key\<close> computes column by column are the Identity Keys of the rows.\<close>

lemma make_key_rows:
  assumes "key_ready df"
  shows "make_key df = Inr (ObjectDtype, map identity_key (rows df))"
proof -
  let ?n = "(dtypes df ''Business Name'', map (\<lambda>r. r ''Business Name'') (rows df))"
  let ?a = "(dtypes df ''Address'', map (\<lambda>r. r ''Address'') (rows df))"
  from assms have g: "getitem df ''Business Name'' = Inr ?n" "getitem df ''Address'' = Inr ?a"
    by (simp_all add: key_ready_def has_key_columns_def getitem_def)
  from assms have ok: "str_accessor_ok ?n" "str_accessor_ok ?a"
    by (simp_all add: key_ready_def)
  let ?nk = "(ObjectDtype, map (str_cell str_strip) (map (str_cell str_lower) (snd ?n)))"
  let ?ak = "(ObjectDtype, map (str_cell str_strip) (map (str_cell str_lower) (snd ?a)))"
  note n = series_str_twice [OF ok(1), of str_lower str_strip]
  note a = series_str_twice [OF ok(2), of str_lower str_strip]
  have k: "series_add (series_add_text ?nk ''||'') ?ak = (ObjectDtype, map identity_key (rows df))"
    unfolding series_add_def series_add_text_def snd_conv series_key ..
  have "make_key df = Inr (series_add (series_add_text ?nk ''||'') ?ak)"
    unfolding make_key_def g
    by (simp only: sum.case n [THEN conjunct1] n [THEN conjunct2] a [THEN conjunct1] a [THEN conjunct2])
  then show ?thesis unfolding k .
qed

lemma make_key_not_ready:
  assumes "\<not> key_ready df"
  shows "\<exists>e. make_key df = Inl e"
proof -
  let ?n = "(dtypes df ''Business Name'', map (\<lambda>r. r ''Business Name'') (rows df))"
  let ?a = "(dtypes df ''Address'', map (\<lambda>r. r ''Address'') (rows df))"
  consider "''Business Name'' \<notin> set (columns df)"
    | "''Business Name'' \<in> set (columns df)" "\<not> str_accessor_ok ?n"
    | "''Business Name'' \<in> set (columns df)" "str_accessor_ok ?n" "''Address'' \<notin> set (columns df)"
    | "''Business Name'' \<in> set (columns df)" "str_accessor_ok ?n" "''Address'' \<in> set (columns df)"
      "\<not> str_accessor_ok ?a"
    using assms by (auto simp: key_ready_def has_key_columns_def)
  then show ?thesis
  proof cases
    case 1
    then show ?thesis by (simp add: make_key_def getitem_def)
  next
    case 2
    then show ?thesis by (simp add: make_key_def getitem_def series_str_def)
  next
    case 3
    with series_str_twice [OF 3(2), of str_lower str_strip] show ?thesis
      by (simp add: make_key_def getitem_def)
  next
    case 4
    with series_str_twice [OF 4(2), of str_lower str_strip] show ?thesis
      by (simp add: make_key_def getitem_def series_str_def)
  qed
qed

lemma make_key_no_name_column:
  "''Business Name'' \<notin> set (columns df) \<Longrightarrow> make_key df = Inl (KeyError ''Business Name'')"
  by (simp add: make_key_def getitem_def)

lemma mask_filter: "map fst (filter snd (zip xs (map P xs))) = filter P xs"
  by (induction xs) auto

lemma count_list_filter:
  "count_list (filter P xs) x = (if P x then count_list xs x else 0)"
  by (induction xs) auto

lemma deduplicate_nonempty:
  assumes "\<not> df_empty existing_df" "key_ready existing_df" "key_ready new_df"
  shows "deduplicate new_df existing_df =
           Inr (new_df\<lparr>rows := filter (\<lambda>r. identity_key r \<notin> identity_key ` set (rows existing_df)) (rows new_df)\<rparr>,
                length (filter (\<lambda>r. identity_key r \<notin> identity_key ` set (rows existing_df)) (rows new_df)),
                length (filter (\<lambda>r. identity_key r \<in> identity_key ` set (rows existing_df)) (rows new_df)))"
proof -
  let ?P = "\<lambda>r. identity_key r \<notin> identity_key ` set (rows existing_df)"
  let ?sel = "map fst (filter snd (zip (rows new_df) (map ?P (rows new_df))))"
  have a: "?sel = filter ?P (rows new_df)"
    by (rule mask_filter)
  have b: "length (filter Not (map ?P (rows new_df)))
           = length (filter (\<lambda>r. identity_key r \<in> identity_key ` set (rows existing_df)) (rows new_df))"
    by (simp add: comp_def)
  have "deduplicate new_df existing_df
        = Inr (new_df\<lparr>rows := ?sel\<rparr>, length ?sel, length (filter Not (map ?P (rows new_df))))"
    using assms by (simp add: deduplicate_def make_key_rows Let_def comp_def)
  then show ?thesis
    unfolding a b .
qed

lemma identity_key_restrict:
  "''Business Name'' \<in> A \<Longrightarrow> ''Address'' \<in> A \<Longrightarrow> identity_key (r |` A) = identity_key r"
  by (simp add: identity_key_def)

lemma filter_all_dup:
  "identity_key ` set xs \<subseteq> K \<Longrightarrow> filter (\<lambda>r. identity_key r \<notin> K) xs = [] \<and>
     length (filter (\<lambda>r. identity_key r \<in> K) xs) = length xs"
  by (induction xs) auto

lemma concat_df_keys:
  assumes "has_key_columns b"
  shows "identity_key ` set (rows b) \<subseteq> identity_key ` set (rows (concat_df a b))"
proof
  fix k assume "k \<in> identity_key ` set (rows b)"
  then obtain r where r: "r \<in> set (rows b)" "k = identity_key r" by auto
  have "identity_key (r |` set (columns b)) = identity_key r"
    using assms by (simp add: identity_key_restrict has_key_columns_def)
  moreover have "r |` set (columns b) \<in> set (rows (concat_df a b))"
    using r by (simp add: concat_df_def)
  ultimately show "k \<in> identity_key ` set (rows (concat_df a b))"
    using r by (metis imageI)
qed

lemma concat_df_nonempty: "\<not> df_empty a \<Longrightarrow> \<not> df_empty (concat_df a b)"
  by (simp add: df_empty_def concat_df_def)

text \<open>
  Cells that are not numbers are texts or missing, so a column of object dtype without
  a number always passes the check of \<open>.str\<close>, and so does any selection of its rows.
\<close>

lemma text_not_number: "is_text x \<Longrightarrow> \<not> is_number x"
  by (simp add: is_text_def is_number_def split: option.splits cell.splits)

lemma no_number_cells:
  "list_all (\<lambda>x. \<not> is_number x) xs \<Longrightarrow> list_ex is_text xs \<or> list_all (\<lambda>x. x = None) xs"
  by (induction xs) (auto simp: is_number_def is_text_def split: option.splits cell.splits)

lemma text_keys_key_ready:
  assumes "text_keys df"
  shows "key_ready df"
proof -
  from assms have n: "list_all (\<lambda>x. \<not> is_number x) (map (\<lambda>r. r ''Business Name'') (rows df))"
    and a: "list_all (\<lambda>x. \<not> is_number x) (map (\<lambda>r. r ''Address'') (rows df))"
    by (simp_all add: text_keys_def list_all_iff)
  from no_number_cells [OF n] no_number_cells [OF a] assms show ?thesis
    by (auto simp: key_ready_def text_keys_def str_accessor_ok_def)
qed

lemma text_keys_filter:
  "text_keys df \<Longrightarrow> text_keys (df\<lparr>rows := filter P (rows df)\<rparr>)"
  by (simp add: text_keys_def has_key_columns_def list_all_iff)

lemma concat_df_column:
  assumes "c \<in> set (columns a)" "c \<in> set (columns b)"
    and "str_accessor_ok (dtypes a c, map (\<lambda>r. r c) (rows a))"
    and "dtypes b c = ObjectDtype" "list_all (\<lambda>x. \<not> is_number x) (map (\<lambda>r. r c) (rows b))"
  shows "str_accessor_ok (dtypes (concat_df a b) c, map (\<lambda>r. r c) (rows (concat_df a b)))"
proof -
  have cells: "map (\<lambda>r. r c) (rows (concat_df a b)) = map (\<lambda>r. r c) (rows a) @ map (\<lambda>r. r c) (rows b)"
    using assms(1,2) by (simp add: concat_df_def comp_def)
  have dt: "dtypes (concat_df a b) c = ObjectDtype"
    using assms(1,2,4) by (simp add: concat_df_def)
  from no_number_cells [OF assms(5)] assms(3) show ?thesis
    unfolding cells dt by (auto simp: str_accessor_ok_def)
qed

lemma concat_df_key_ready:
  assumes "key_ready a" "text_keys b"
  shows "key_ready (concat_df a b)"
proof -
  have h: "has_key_columns (concat_df a b)"
    using assms(1) by (simp add: key_ready_def has_key_columns_def concat_df_def)
  from assms(2) have n: "list_all (\<lambda>x. \<not> is_number x) (map (\<lambda>r. r ''Business Name'') (rows b))"
    and ad: "list_all (\<lambda>x. \<not> is_number x) (map (\<lambda>r. r ''Address'') (rows b))"
    by (simp_all add: text_keys_def list_all_iff)
  have 1: "str_accessor_ok (dtypes (concat_df a b) ''Business Name'',
             map (\<lambda>r. r ''Business Name'') (rows (concat_df a b)))"
    using assms by (intro concat_df_column n) (simp_all add: key_ready_def text_keys_def has_key_columns_def)
  have 2: "str_accessor_ok (dtypes (concat_df a b) ''Address'',
             map (\<lambda>r. r ''Address'') (rows (concat_df a b)))"
    using assms by (intro concat_df_column ad) (simp_all add: key_ready_def text_keys_def has_key_columns_def)
  from h 1 2 show ?thesis by (simp add: key_ready_def)
qed

lemma deduplicate_all_known:
  assumes "\<not> df_empty h" "key_ready h" "key_ready g"
    and "identity_key ` set (rows g) \<subseteq> identity_key ` set (rows h)"
  shows "deduplicate g h = Inr (g\<lparr>rows := []\<rparr>, 0, length (rows g))"
  using deduplicate_nonempty [OF assms(1-3)] filter_all_dup [OF assms(4)] by simp

text \<open>A table with a row whose name and address are texts has keys that can be computed.\<close>

lemma text_row_key_ready:
  assumes "has_key_columns df" "r \<in> set (rows df)"
    and "r ''Business Name'' = Some (Text n)" "r ''Address'' = Some (Text a)"
  shows "key_ready df"
proof -
  have "is_text (r ''Business Name'')" "is_text (r ''Address'')"
    using assms(3,4) by (simp_all add: is_text_def)
  with assms(1,2) show ?thesis
    by (auto simp: key_ready_def str_accessor_ok_def list_ex_iff)
qed

text \<open>
  The records the extractor returns have a text as name and as address, so a batch
  built from at least one of them meets the hypotheses on the new batch below.
\<close>

lemma extract_record_key_cells:
  assumes "extract_record L TODAY place category = Some r"
  shows "is_text (map_of r ''Business Name'') \<and> is_text (map_of r ''Address'')"
proof -
  let ?closed = "permanently_closed place = Some True
         \<or> contains ''permanently closed'' (str_lower (get_or (status place) ''''))"
  have nc: "\<not> ?closed"
    using assms by (rule contrapos_pp) (simp add: extract_record_def)
  from assms nc show ?thesis
    by (clarsimp simp: extract_record_def Let_def is_text_def split del: if_split)
qed

lemma DataFrame_text_keys:
  assumes "records \<noteq> []"
    and "list_all (\<lambda>r. is_text (map_of r ''Business Name'') \<and> is_text (map_of r ''Address'')) records"
  shows "text_keys (DataFrame records)"
proof -
  obtain r where r: "r \<in> set records" using assms(1) by (cases records) auto
  with assms(2) have t: "is_text (map_of r ''Business Name'')" "is_text (map_of r ''Address'')"
    by (simp_all add: list_all_iff)
  then obtain x y where "map_of r ''Business Name'' = Some x" "map_of r ''Address'' = Some y"
    by (auto simp: is_text_def split: option.splits)
  then have "(''Business Name'', x) \<in> set r" "(''Address'', y) \<in> set r"
    by (auto dest: map_of_SomeD)
  then have "''Business Name'' \<in> fst ` set r" "''Address'' \<in> fst ` set r"
    by force+
  with r have c: "has_key_columns (DataFrame records)"
    by (auto simp: has_key_columns_def DataFrame_def)
  from r t have d: "dtypes (DataFrame records) ''Business Name'' = ObjectDtype"
    "dtypes (DataFrame records) ''Address'' = ObjectDtype"
    by (auto simp: DataFrame_def list_ex_iff)
  have "list_all (\<lambda>r. \<not> is_number (r ''Business Name'') \<and> \<not> is_number (r ''Address''))
          (rows (DataFrame records))"
    using assms(2) by (auto simp: DataFrame_def list_all_iff dest: text_not_number)
  with c d show ?thesis by (simp add: text_keys_def)
qed

lemma identity_key_vendor_row:
  "identity_key (vendor_row n a)
   = Some (Text (str_strip (str_lower n) @ ''||'' @ str_strip (str_lower a)))"
  by (simp add: identity_key_def vendor_row_def)

lemma vendor_frame_simps:
  "has_key_columns (vendor_frame rs)" "rows (vendor_frame rs) = rs"
  "df_empty (vendor_frame rs) \<longleftrightarrow> rs = []"
  by (simp_all add: has_key_columns_def vendor_frame_def df_empty_def)

lemma vendor_frame_text_keys:
  "text_keys (vendor_frame (map (\<lambda>(n, a). vendor_row n a) xs))"
  by (auto simp: text_keys_def has_key_columns_def vendor_frame_def list_all_iff
      vendor_row_def is_number_def)

lemma scenario_ready:
  "text_keys scenario_hist" "text_keys scenario_new"
  "key_ready scenario_hist" "key_ready scenario_new"
proof -
  show 1: "text_keys scenario_hist"
    using vendor_frame_text_keys [of "[(''X'', ''Y'')]"] by (simp add: scenario_hist_def)
  show 2: "text_keys scenario_new"
    using vendor_frame_text_keys [of "[(''X'', ''Y''), (''Z'', ''W'')]"] by (simp add: scenario_new_def)
  show "key_ready scenario_hist" by (rule text_keys_key_ready [OF 1])
  show "key_ready scenario_new" by (rule text_keys_key_ready [OF 2])
qed

lemma scenario_keys:
  "identity_key (vendor_row ''X'' ''Y'') = Some (Text ''x||y'')"
  "identity_key (vendor_row ''Z'' ''W'') = Some (Text ''z||w'')"
  by (simp_all add: identity_key_vendor_row text_defs)

section \<open>Claims about deduplication\<close>

text \<open>
  C1. For every new batch and every non-empty historical table whose keys can be
  computed (both have the business-name and address columns, holding texts),
  \<open>deduplicate\<close> keeps a record of the new batch if and only if its Identity Key is not
  among the Identity Keys of the historical table. The records kept are in the order
  of the new batch, and a record whose key is not in the history is kept as many times
  as it occurs in the new batch: records of the new batch are not deduplicated against
  each other. The first count is the number of records kept and the second the number
  removed.
\<close>

theorem deduplicate_against_history:
  assumes "\<not> df_empty existing_df" "key_ready existing_df" "key_ready new_df"
  shows "\<exists>new_only new_count duplicate_count.
           deduplicate new_df existing_df = Inr (new_only, new_count, duplicate_count)
         \<and> rows new_only = filter (\<lambda>r. identity_key r \<notin> identity_key ` set (rows existing_df)) (rows new_df)
         \<and> columns new_only = columns new_df
         \<and> (\<forall>r \<in> set (rows new_df).
               r \<in> set (rows new_only) \<longleftrightarrow> identity_key r \<notin> identity_key ` set (rows existing_df))
         \<and> (\<forall>r. identity_key r \<notin> identity_key ` set (rows existing_df) \<longrightarrow>
               count_list (rows new_only) r = count_list (rows new_df) r)
         \<and> new_count = length (rows new_only)
         \<and> new_count + duplicate_count = length (rows new_df)"
proof -
  let ?P = "\<lambda>r. identity_key r \<notin> identity_key ` set (rows existing_df)"
  have "length (filter ?P (rows new_df)) + length (filter (\<lambda>r. \<not> ?P r) (rows new_df)) = length (rows new_df)"
    by (rule sum_length_filter_compl)
  then show ?thesis
    using deduplicate_nonempty [OF assms]
    by (auto simp: count_list_filter)
qed

text \<open>
  The scenario of the specification: the history holds the record X, Y and the new
  batch the records X, Y and Z, W. The record Z, W is kept, one record is new and one is
  a duplicate.
\<close>

theorem deduplicate_against_history_witness:
  "\<not> df_empty scenario_hist \<and> key_ready scenario_hist \<and> key_ready scenario_new
   \<and> (\<exists>new_only. deduplicate scenario_new scenario_hist = Inr (new_only, 1, 1)
         \<and> rows new_only = [vendor_row ''Z'' ''W''])"
proof -
  have h1: "\<not> df_empty scenario_hist" by (simp add: scenario_hist_def vendor_frame_simps)
  note h2 = scenario_ready(3)
  note h3 = scenario_ready(4)
  from deduplicate_against_history [OF h1 h2 h3]
  obtain new_only new_count duplicate_count where
    d: "deduplicate scenario_new scenario_hist = Inr (new_only, new_count, duplicate_count)"
    and r: "rows new_only = filter (\<lambda>r. identity_key r \<notin> identity_key ` set (rows scenario_hist)) (rows scenario_new)"
    and n: "new_count = length (rows new_only)"
    and s: "new_count + duplicate_count = length (rows scenario_new)"
    by blast
  have r': "rows new_only = [vendor_row ''Z'' ''W'']"
    unfolding r by (simp add: scenario_hist_def scenario_new_def vendor_frame_simps scenario_keys)
  have "new_count = 1" using n r' by simp
  moreover from this have "duplicate_count = 1"
    using s by (simp add: scenario_new_def vendor_frame_simps)
  ultimately show ?thesis using h1 h2 h3 d r' by simp
qed

text \<open>
  C2. \<open>deduplicate\<close> is idempotent against its own output. For every batch whose key
  columns hold texts and every historical table (empty, or with keys that can be
  computed), the first run returns a table of genuinely new records, and running
  \<open>deduplicate\<close> on that table against the history combined with it (the master table
  \<open>main\<close> writes, and also the plain concatenation when the history is not empty)
  returns no record, with a duplicate count equal to the number of genuinely new
  records.
\<close>

theorem deduplicate_idempotent:
  assumes "text_keys batch" and "df_empty hist \<or> key_ready hist"
  shows "\<exists>genuinely_new n d.
           deduplicate batch hist = Inr (genuinely_new, n, d)
         \<and> deduplicate genuinely_new (combined_df hist genuinely_new)
             = Inr (genuinely_new\<lparr>rows := []\<rparr>, 0, length (rows genuinely_new))
         \<and> (\<not> df_empty hist \<longrightarrow>
              deduplicate genuinely_new (concat_df hist genuinely_new)
                = Inr (genuinely_new\<lparr>rows := []\<rparr>, 0, length (rows genuinely_new)))"
proof (cases "df_empty hist")
  case True
  note bk = text_keys_key_ready [OF assms(1)]
  from True have first: "deduplicate batch hist = Inr (batch, length (rows batch), 0)"
    by (simp add: deduplicate_def)
  from True have comb: "combined_df hist batch = batch"
    by (simp add: combined_df_def)
  have "deduplicate batch batch = Inr (batch\<lparr>rows := []\<rparr>, 0, length (rows batch))"
  proof (cases "df_empty batch")
    case True
    with bk have "rows batch = []"
      by (auto simp: df_empty_def key_ready_def has_key_columns_def)
    with True show ?thesis by (simp add: deduplicate_def)
  next
    case False
    then show ?thesis using bk by (simp add: deduplicate_all_known)
  qed
  with first comb True show ?thesis by simp
next
  case False
  with assms(2) have hk: "key_ready hist" by simp
  note bk = text_keys_key_ready [OF assms(1)]
  let ?g = "batch\<lparr>rows := filter (\<lambda>r. identity_key r \<notin> identity_key ` set (rows hist)) (rows batch)\<rparr>"
  have gt: "text_keys ?g" by (rule text_keys_filter [OF assms(1)])
  note gk = text_keys_key_ready [OF gt]
  have gc: "has_key_columns ?g" using gk by (simp add: key_ready_def)
  have first: "\<exists>n d. deduplicate batch hist = Inr (?g, n, d)"
    using deduplicate_nonempty [OF False hk bk] by simp
  have cc: "deduplicate ?g (concat_df hist ?g) = Inr (?g\<lparr>rows := []\<rparr>, 0, length (rows ?g))"
    by (rule deduplicate_all_known
        [OF concat_df_nonempty [OF False] concat_df_key_ready [OF hk gt] gk concat_df_keys [OF gc]])
  have "deduplicate ?g (combined_df hist ?g) = Inr (?g\<lparr>rows := []\<rparr>, 0, length (rows ?g))"
  proof (cases "df_empty ?g")
    case True
    with gc have e: "rows ?g = []" by (auto simp: df_empty_def has_key_columns_def)
    from True False have "combined_df hist ?g = hist" by (simp add: combined_df_def)
    moreover have "deduplicate ?g hist = Inr (?g\<lparr>rows := []\<rparr>, 0, length (rows ?g))"
      by (rule deduplicate_all_known [OF False hk gk]) (simp add: e)
    ultimately show ?thesis by simp
  next
    case g: False
    with False have "combined_df hist ?g = concat_df hist ?g" by (simp add: combined_df_def)
    with cc show ?thesis by simp
  qed
  with first cc False show ?thesis by blast
qed

theorem deduplicate_idempotent_witness:
  "text_keys scenario_new \<and> (df_empty scenario_hist \<or> key_ready scenario_hist)
   \<and> (\<exists>genuinely_new.
         deduplicate scenario_new scenario_hist = Inr (genuinely_new, 1, 1)
       \<and> rows genuinely_new = [vendor_row ''Z'' ''W'']
       \<and> deduplicate genuinely_new (combined_df scenario_hist genuinely_new)
           = Inr (genuinely_new\<lparr>rows := []\<rparr>, 0, 1))"
proof -
  note h1 = scenario_ready(2)
  have h2: "df_empty scenario_hist \<or> key_ready scenario_hist"
    using scenario_ready(3) by simp
  have ne: "\<not> df_empty scenario_hist"
    by (simp add: scenario_hist_def vendor_frame_simps)
  have ev: "deduplicate scenario_new scenario_hist
            = Inr (scenario_new\<lparr>rows := [vendor_row ''Z'' ''W'']\<rparr>, 1, 1)"
    unfolding deduplicate_nonempty [OF ne scenario_ready(3) scenario_ready(4)]
    by (simp add: scenario_hist_def scenario_new_def vendor_frame_simps scenario_keys)
  from deduplicate_idempotent [OF h1 h2]
  obtain genuinely_new n d where
    a: "deduplicate scenario_new scenario_hist = Inr (genuinely_new, n, d)"
    and b: "deduplicate genuinely_new (combined_df scenario_hist genuinely_new)
             = Inr (genuinely_new\<lparr>rows := []\<rparr>, 0, length (rows genuinely_new))"
    by blast
  from a ev have g: "genuinely_new = scenario_new\<lparr>rows := [vendor_row ''Z'' ''W'']\<rparr>"
    and "n = 1" "d = 1" by simp_all
  with a b h1 h2 show ?thesis by simp
qed

text \<open>
  C6. With an empty historical table, \<open>deduplicate\<close> returns the new batch as it is (the
  same records in the same order), the number of its records as the count of new
  records, and 0 as the count of duplicates.
\<close>

theorem deduplicate_empty_history:
  "df_empty existing_df \<Longrightarrow>
     deduplicate new_df existing_df = Inr (new_df, length (rows new_df), 0)"
  by (simp add: deduplicate_def)

theorem deduplicate_empty_history_witness:
  "df_empty (DataFrame []) \<and> deduplicate scenario_new (DataFrame []) = Inr (scenario_new, 2, 0)"
proof -
  have h: "df_empty (DataFrame [])" by (simp add: df_empty_def DataFrame_def)
  from deduplicate_empty_history [OF h, of scenario_new] h show ?thesis
    by (simp add: scenario_new_def vendor_frame_simps)
qed

text \<open>
  C7. The comparison of Identity Keys ignores the case of letters and the whitespace
  around the name and around the address: two records whose names are equal after
  lowercasing and trimming, and whose addresses are, have the same Identity Key, and
  each is removed as a duplicate when the other is in the historical table.
\<close>

theorem identity_key_normalised:
  assumes "r1 ''Business Name'' = Some (Text n1)" "r1 ''Address'' = Some (Text a1)"
    and "r2 ''Business Name'' = Some (Text n2)" "r2 ''Address'' = Some (Text a2)"
    and "str_strip (str_lower n1) = str_strip (str_lower n2)"
    and "str_strip (str_lower a1) = str_strip (str_lower a2)"
    and "has_key_columns A" "has_key_columns B"
    and "r1 \<in> set (rows A)" "r2 \<in> set (rows B)"
  shows "identity_key r1 = identity_key r2
       \<and> (\<exists>new_only n d. deduplicate A B = Inr (new_only, n, d) \<and> r1 \<notin> set (rows new_only))
       \<and> (\<exists>new_only n d. deduplicate B A = Inr (new_only, n, d) \<and> r2 \<notin> set (rows new_only))"
proof -
  have k: "identity_key r1 = identity_key r2"
    using assms(1-6) by (simp add: identity_key_def)
  have neA: "\<not> df_empty A" using assms(7,9) by (auto simp: df_empty_def has_key_columns_def)
  have neB: "\<not> df_empty B" using assms(8,10) by (auto simp: df_empty_def has_key_columns_def)
  have kA: "key_ready A" by (rule text_row_key_ready [OF assms(7) assms(9) assms(1) assms(2)])
  have kB: "key_ready B" by (rule text_row_key_ready [OF assms(8) assms(10) assms(3) assms(4)])
  have 1: "\<exists>new_only n d. deduplicate A B = Inr (new_only, n, d) \<and> r1 \<notin> set (rows new_only)"
    using deduplicate_nonempty [OF neB kB kA] k assms(10) by auto
  have 2: "\<exists>new_only n d. deduplicate B A = Inr (new_only, n, d) \<and> r2 \<notin> set (rows new_only)"
  proof -
    have "identity_key r2 \<in> identity_key ` set (rows A)"
      using k assms(9) by (metis imageI)
    then show ?thesis
      using deduplicate_nonempty [OF neA kA kB] by simp
  qed
  from k 1 2 show ?thesis by blast
qed

text \<open>
  The two records of the specification's example, the first with a no-break space
  after the name as well.
\<close>

theorem identity_key_normalised_witness:
  "str_strip (str_lower (''Acme Tents '' @ [CHR 0xA0])) = str_strip (str_lower ''acme tents'')
   \<and> str_strip (str_lower ''MG Road'') = str_strip (str_lower ''mg road'')
   \<and> identity_key (vendor_row (''Acme Tents '' @ [CHR 0xA0]) ''MG Road'')
       = identity_key (vendor_row ''acme tents'' ''mg road'')
   \<and> (\<exists>new_only n d.
         deduplicate (vendor_frame [vendor_row (''Acme Tents '' @ [CHR 0xA0]) ''MG Road''])
                     (vendor_frame [vendor_row ''acme tents'' ''mg road'']) = Inr (new_only, n, d)
       \<and> vendor_row (''Acme Tents '' @ [CHR 0xA0]) ''MG Road'' \<notin> set (rows new_only))
   \<and> (\<exists>new_only n d.
         deduplicate (vendor_frame [vendor_row ''acme tents'' ''mg road''])
                     (vendor_frame [vendor_row (''Acme Tents '' @ [CHR 0xA0]) ''MG Road'']) = Inr (new_only, n, d)
       \<and> vendor_row ''acme tents'' ''mg road'' \<notin> set (rows new_only))"
proof -
  have n: "str_strip (str_lower (''Acme Tents '' @ [CHR 0xA0])) = str_strip (str_lower ''acme tents'')"
    by (simp add: text_defs)
  have a: "str_strip (str_lower ''MG Road'') = str_strip (str_lower ''mg road'')"
    by (simp add: text_defs)
  have f: "vendor_row x y ''Business Name'' = Some (Text x)" "vendor_row x y ''Address'' = Some (Text y)"
    for x y by (simp_all add: vendor_row_def)
  from identity_key_normalised
    [OF f(1) f(2) f(1) f(2) n a vendor_frame_simps(1) vendor_frame_simps(1),
     of "[vendor_row (''Acme Tents '' @ [CHR 0xA0]) ''MG Road'']" "[vendor_row ''acme tents'' ''mg road'']"]
    n a
  show ?thesis by (simp add: vendor_frame_simps)
qed

text \<open>
  C10. The two key columns are a precondition of \<open>deduplicate\<close> on a non-empty
  historical table. The table built from an empty list of records (a run that
  collected nothing) has no column, and \<open>deduplicate\<close> raises \<open>KeyError\<close> on it while
  computing the keys, instead of returning an empty result; so it does on any new
  batch without a column. Against a non-empty historical table whose keys can be
  computed, \<open>deduplicate\<close> returns a result only when the new batch has both key
  columns, and exactly when the keys of the new batch can be computed.
\<close>

theorem deduplicate_requires_columns:
  assumes "\<not> df_empty existing_df" and "key_ready existing_df"
  shows "deduplicate (DataFrame []) existing_df = Inl (KeyError ''Business Name'')
       \<and> (\<forall>new_df. (\<exists>res. deduplicate new_df existing_df = Inr res) \<longrightarrow>
             ''Business Name'' \<in> set (columns new_df) \<and> ''Address'' \<in> set (columns new_df))
       \<and> (\<forall>new_df. (\<exists>res. deduplicate new_df existing_df = Inr res) \<longleftrightarrow> key_ready new_df)
       \<and> (\<forall>new_df. columns new_df = [] \<longrightarrow>
             deduplicate new_df existing_df = Inl (KeyError ''Business Name''))"
proof -
  have d: "deduplicate new_df existing_df
           = (case make_key new_df of Inl e \<Rightarrow> Inl e
              | Inr k \<Rightarrow> Inr (new_df\<lparr>rows := filter (\<lambda>r. identity_key r \<notin> identity_key ` set (rows existing_df)) (rows new_df)\<rparr>,
                  length (filter (\<lambda>r. identity_key r \<notin> identity_key ` set (rows existing_df)) (rows new_df)),
                  length (filter (\<lambda>r. identity_key r \<in> identity_key ` set (rows existing_df)) (rows new_df))))"
    for new_df :: dataframe
  proof (cases "key_ready new_df")
    case True
    then show ?thesis
      using deduplicate_nonempty [OF assms True] by (simp add: make_key_rows)
  next
    case False
    then obtain e where "make_key new_df = Inl e" using make_key_not_ready by blast
    then show ?thesis using assms by (simp add: deduplicate_def make_key_rows)
  qed
  have err: "\<exists>e. deduplicate new_df existing_df = Inl e"
    if "\<not> key_ready new_df" for new_df :: dataframe
  proof -
    from that obtain e where "make_key new_df = Inl e" using make_key_not_ready by blast
    then show ?thesis unfolding d by simp
  qed
  have ok: "\<exists>res. deduplicate new_df existing_df = Inr res"
    if "key_ready new_df" for new_df :: dataframe
    using deduplicate_nonempty [OF assms that] by simp
  have nocol: "deduplicate new_df existing_df = Inl (KeyError ''Business Name'')"
    if "''Business Name'' \<notin> set (columns new_df)" for new_df :: dataframe
    unfolding d using make_key_no_name_column [OF that] by simp
  have 1: "deduplicate (DataFrame []) existing_df = Inl (KeyError ''Business Name'')"
    by (rule nocol) (simp add: DataFrame_def)
  have 3: "\<forall>new_df. (\<exists>res. deduplicate new_df existing_df = Inr res) \<longleftrightarrow> key_ready new_df"
  proof (intro allI iffI)
    fix new_df :: dataframe
    assume "\<exists>res. deduplicate new_df existing_df = Inr res"
    then show "key_ready new_df"
    proof (rule contrapos_pp)
      assume "\<not> key_ready new_df"
      from err [OF this] show "\<not> (\<exists>res. deduplicate new_df existing_df = Inr res)" by auto
    qed
  next
    fix new_df :: dataframe
    assume "key_ready new_df"
    then show "\<exists>res. deduplicate new_df existing_df = Inr res" by (rule ok)
  qed
  have 2: "\<forall>new_df. (\<exists>res. deduplicate new_df existing_df = Inr res) \<longrightarrow>
             ''Business Name'' \<in> set (columns new_df) \<and> ''Address'' \<in> set (columns new_df)"
    using 3 by (simp add: key_ready_def has_key_columns_def)
  have 4: "\<forall>new_df :: dataframe. columns new_df = [] \<longrightarrow>
             deduplicate new_df existing_df = Inl (KeyError ''Business Name'')"
    using nocol by simp
  show ?thesis
    by (intro conjI 1 2 3 4)
qed

theorem deduplicate_requires_columns_witness:
  "\<not> df_empty scenario_hist \<and> key_ready scenario_hist
   \<and> columns (DataFrame []) = [] \<and> rows (DataFrame []) = []
   \<and> deduplicate (DataFrame []) scenario_hist = Inl (KeyError ''Business Name'')
   \<and> key_ready scenario_new
   \<and> (\<exists>res. deduplicate scenario_new scenario_hist = Inr res)"
proof -
  have h1: "\<not> df_empty scenario_hist" by (simp add: scenario_hist_def vendor_frame_simps)
  note h2 = scenario_ready(3)
  note c = scenario_ready(4)
  note t = deduplicate_requires_columns [OF h1 h2]
  have a: "deduplicate (DataFrame []) scenario_hist = Inl (KeyError ''Business Name'')"
    by (rule t [THEN conjunct1])
  have "(\<exists>res. deduplicate scenario_new scenario_hist = Inr res) \<longleftrightarrow> key_ready scenario_new"
    by (rule spec [OF t [THEN conjunct2, THEN conjunct2, THEN conjunct1]])
  with c have b: "\<exists>res. deduplicate scenario_new scenario_hist = Inr res" by simp
  have e: "columns (DataFrame []) = []" "rows (DataFrame []) = []" by (simp_all add: DataFrame_def)
  show ?thesis
    by (intro conjI h1 h2 e a c b)
qed

section \<open>Claims about phone validation\<close>


lemma indian_candidates_valid:
  assumes "indian_candidates L raw" "c \<in> set (candidates raw)" "parse L c ''IN'' = Some p"
  shows "is_valid_number L p = is_valid_number_for_region L p ''IN''"
proof -
  from assms(1,2) have "case parse L c ''IN'' of None \<Rightarrow> True
      | Some p \<Rightarrow> is_valid_number L p = is_valid_number_for_region L p ''IN''"
    by (simp add: indian_candidates_def list_all_iff)
  with assms(3) show ?thesis by simp
qed



text \<open>
  C4. Let \<open>d\<close> be a 10-digit number that the library parses, with default region IN,
  to the same valid mobile number from its four spellings: bare, with a leading \<open>0\<close>,
  with the prefix \<open>+91\<close> and with the bare prefix \<open>91\<close>. Then validation returns the
  same canonical E.164 value for the four spellings.
\<close>

theorem validate_phone_spellings:
  assumes "length d = 10" and "\<forall>c \<in> set d. is_digit c"
    and "parse L d ''IN'' = Some p"
    and "parse L (''0'' @ d) ''IN'' = Some p"
    and "parse L (''+91'' @ d) ''IN'' = Some p"
    and "parse L (''91'' @ d) ''IN'' = Some p"
    and "is_valid_number L p" and "number_type L p = MOBILE"
  shows "validate_phone L (Some d) = Some (format_number L p E164)
       \<and> validate_phone L (Some (''0'' @ d)) = Some (format_number L p E164)
       \<and> validate_phone L (Some (''+91'' @ d)) = Some (format_number L p E164)
       \<and> validate_phone L (Some (''91'' @ d)) = Some (format_number L p E164)"
proof -
  have t: "number_type L p \<in> valid_types" using assms(8) by (simp add: valid_types_def)
  have ne: "d \<noteq> []" using assms(1) by auto
  have cd: "cleaned d = d" by (rule cleaned_digits [OF assms(2)])
  have c0: "cleaned ''0'' = ''0''" by (simp add: cleaned_def is_digit_def)
  have c1: "cleaned ''+91'' = ''+91''" by (simp add: cleaned_def is_digit_def)
  have c2: "cleaned ''91'' = ''91''" by (simp add: cleaned_def is_digit_def)
  have 1: "validate_phone L (Some d) = Some (format_number L p E164)"
    by (rule validate_phone_first [OF ne cd assms(3) assms(7) t])
  have 2: "validate_phone L (Some (''0'' @ d)) = Some (format_number L p E164)"
    by (rule validate_phone_first [OF _ _ assms(4) assms(7) t])
       (simp_all only: cleaned_append c0 cd, simp)
  have 3: "validate_phone L (Some (''+91'' @ d)) = Some (format_number L p E164)"
    by (rule validate_phone_first [OF _ _ assms(5) assms(7) t])
       (simp_all only: cleaned_append c1 cd, simp)
  have 4: "validate_phone L (Some (''91'' @ d)) = Some (format_number L p E164)"
    by (rule validate_phone_first [OF _ _ assms(6) assms(7) t])
       (simp_all only: cleaned_append c2 cd, simp)
  from 1 2 3 4 show ?thesis by simp
qed

theorem validate_phone_spellings_witness:
  "length ''9876543210'' = 10 \<and> list_all is_digit ''9876543210''
   \<and> parse sample_phonenumbers ''9876543210'' ''IN'' = Some ''9876543210''
   \<and> parse sample_phonenumbers ''09876543210'' ''IN'' = Some ''9876543210''
   \<and> parse sample_phonenumbers ''+919876543210'' ''IN'' = Some ''9876543210''
   \<and> parse sample_phonenumbers ''919876543210'' ''IN'' = Some ''9876543210''
   \<and> is_valid_number sample_phonenumbers ''9876543210''
   \<and> number_type sample_phonenumbers ''9876543210'' = MOBILE
   \<and> validate_phone sample_phonenumbers (Some ''9876543210'') = Some ''+919876543210''
   \<and> validate_phone sample_phonenumbers (Some ''09876543210'') = Some ''+919876543210''
   \<and> validate_phone sample_phonenumbers (Some ''+919876543210'') = Some ''+919876543210''
   \<and> validate_phone sample_phonenumbers (Some ''919876543210'') = Some ''+919876543210''"
proof -
  have h1: "length ''9876543210'' = 10" by simp
  have h2: "\<forall>c \<in> set ''9876543210''. is_digit c" by (simp add: is_digit_def)
  have p1: "parse sample_phonenumbers ''9876543210'' ''IN'' = Some ''9876543210''"
    by (simp add: sample_phonenumbers_def)
  have p2: "parse sample_phonenumbers (''0'' @ ''9876543210'') ''IN'' = Some ''9876543210''"
    by (simp add: sample_phonenumbers_def)
  have p3: "parse sample_phonenumbers (''+91'' @ ''9876543210'') ''IN'' = Some ''9876543210''"
    by (simp add: sample_phonenumbers_def)
  have p4: "parse sample_phonenumbers (''91'' @ ''9876543210'') ''IN'' = Some ''9876543210''"
    by (simp add: sample_phonenumbers_def)
  have v: "is_valid_number sample_phonenumbers ''9876543210''"
    by (simp add: sample_phonenumbers_def)
  have m: "number_type sample_phonenumbers ''9876543210'' = MOBILE"
    by (simp add: sample_phonenumbers_def)
  have f: "format_number sample_phonenumbers ''9876543210'' E164 = ''+919876543210''"
    by (simp add: sample_phonenumbers_def)
  have r: "validate_phone sample_phonenumbers (Some ''9876543210'') = Some ''+919876543210''
       \<and> validate_phone sample_phonenumbers (Some ''09876543210'') = Some ''+919876543210''
       \<and> validate_phone sample_phonenumbers (Some ''+919876543210'') = Some ''+919876543210''
       \<and> validate_phone sample_phonenumbers (Some ''919876543210'') = Some ''+919876543210''"
    using validate_phone_spellings [OF h1 h2 p1 p2 p3 p4 v m] unfolding f by simp
  have d: "list_all is_digit ''9876543210''" by (simp add: is_digit_def)
  from p1 p2 p3 p4 have q: "parse sample_phonenumbers ''9876543210'' ''IN'' = Some ''9876543210''"
    "parse sample_phonenumbers ''09876543210'' ''IN'' = Some ''9876543210''"
    "parse sample_phonenumbers ''+919876543210'' ''IN'' = Some ''9876543210''"
    "parse sample_phonenumbers ''919876543210'' ''IN'' = Some ''9876543210''"
    by simp_all
  show ?thesis
    by (intro conjI h1 d q v m r [THEN conjunct1] r [THEN conjunct2, THEN conjunct1]
        r [THEN conjunct2, THEN conjunct2, THEN conjunct1]
        r [THEN conjunct2, THEN conjunct2, THEN conjunct2])
qed

text \<open>
  C5, as the specification states it, has validation return no value whenever the
  parsed number of the raw input is valid and of an excluded line type. The loop does
  not stop there: it goes on to the second candidate. In the sample library,
  \<open>00 91 1800 1234\<close> parses to a valid toll-free number, and validation returns the
  mobile number that the second candidate spells.
\<close>

theorem validate_phone_falls_through:
  "parse sample_phonenumbers (cleaned ''00 91 1800 1234'') ''IN'' = Some ''18001234''
   \<and> is_valid_number sample_phonenumbers ''18001234''
   \<and> is_valid_number_for_region sample_phonenumbers ''18001234'' ''IN''
   \<and> number_type sample_phonenumbers ''18001234'' = TOLL_FREE
   \<and> validate_phone sample_phonenumbers (Some ''00 91 1800 1234'') = Some ''+919118001234''"
proof -
  have c: "cleaned ''00 91 1800 1234'' = ''009118001234''"
    by (simp add: cleaned_def is_digit_def)
  have v: "validate_phone sample_phonenumbers (Some ''00 91 1800 1234'') = Some ''+919118001234''"
    by (simp add: validate_phone_def validate_phone_run_def candidates_def c lstrip_chars_def
        attempt_def valid_types_def sample_phonenumbers_def)
  have p: "parse sample_phonenumbers (cleaned ''00 91 1800 1234'') ''IN'' = Some ''18001234''"
    "is_valid_number sample_phonenumbers ''18001234''"
    "is_valid_number_for_region sample_phonenumbers ''18001234'' ''IN''"
    "number_type sample_phonenumbers ''18001234'' = TOLL_FREE"
    unfolding c by (simp_all add: sample_phonenumbers_def)
  show ?thesis
    by (intro conjI p v)
qed

text \<open>
  C5, amended. For every raw input that spells no number of another region,
  validation returns no value when each of its two candidates, where it parses to a
  number valid for region IN, has a line type other than mobile, fixed-line and
  fixed-line-or-mobile (a toll-free or premium-rate number, say). An excluded line type
  of the first candidate's number alone does not end the search: the second candidate
  is still tried. A value that is returned is always the E.164 formatting of a
  candidate's parsed number that passed the validity check and has an allowed line
  type. The first statement also holds for every raw input with the library's validity
  check in place of validity for region IN.
\<close>

theorem validate_phone_excluded_type:
  "((\<forall>c \<in> set (candidates raw). \<forall>p. parse L c ''IN'' = Some p \<longrightarrow> is_valid_number L p
        \<longrightarrow> number_type L p \<notin> {MOBILE, FIXED_LINE, FIXED_LINE_OR_MOBILE})
      \<longrightarrow> validate_phone L (Some raw) = None)
   \<and> (\<forall>v. validate_phone L (Some raw) = Some v \<longrightarrow>
         (\<exists>c \<in> set (candidates raw). \<exists>p. parse L c ''IN'' = Some p \<and> is_valid_number L p
             \<and> number_type L p \<in> {MOBILE, FIXED_LINE, FIXED_LINE_OR_MOBILE}
             \<and> v = format_number L p E164))
   \<and> (indian_candidates L raw \<longrightarrow>
        (\<forall>c \<in> set (candidates raw). \<forall>p. parse L c ''IN'' = Some p
            \<longrightarrow> is_valid_number_for_region L p ''IN''
            \<longrightarrow> number_type L p \<notin> {MOBILE, FIXED_LINE, FIXED_LINE_OR_MOBILE})
        \<longrightarrow> validate_phone L (Some raw) = None)"
proof -
  have pos: "\<exists>c \<in> set (candidates raw). \<exists>p. parse L c ''IN'' = Some p \<and> is_valid_number L p
             \<and> number_type L p \<in> {MOBILE, FIXED_LINE, FIXED_LINE_OR_MOBILE}
             \<and> v = format_number L p E164"
    if "validate_phone L (Some raw) = Some v" for v
  proof -
    from validate_phone_candidate [OF that]
    obtain c where c: "c \<in> set (candidates raw)" "attempt L c = Some v" by blast
    from c(2) obtain p where "parse L c ''IN'' = Some p" "is_valid_number L p"
      "number_type L p \<in> valid_types" "v = format_number L p E164"
      unfolding attempt_Some by blast
    with c(1) show ?thesis unfolding valid_types_def by blast
  qed
  have neg: "validate_phone L (Some raw) = None"
    if h: "\<forall>c \<in> set (candidates raw). \<forall>p. parse L c ''IN'' = Some p \<longrightarrow> is_valid_number L p
        \<longrightarrow> number_type L p \<notin> {MOBILE, FIXED_LINE, FIXED_LINE_OR_MOBILE}"
  proof (cases "validate_phone L (Some raw)")
    case None
    then show ?thesis .
  next
    case (Some v)
    from pos [OF Some] h show ?thesis by blast
  qed
  have reg: "validate_phone L (Some raw) = None"
    if i: "indian_candidates L raw"
      and h: "\<forall>c \<in> set (candidates raw). \<forall>p. parse L c ''IN'' = Some p
            \<longrightarrow> is_valid_number_for_region L p ''IN''
            \<longrightarrow> number_type L p \<notin> {MOBILE, FIXED_LINE, FIXED_LINE_OR_MOBILE}"
  proof (rule neg, intro ballI allI impI)
    fix c p
    assume c: "c \<in> set (candidates raw)" and p: "parse L c ''IN'' = Some p" and v: "is_valid_number L p"
    from indian_candidates_valid [OF i c p] v have "is_valid_number_for_region L p ''IN''" by simp
    with h c p show "number_type L p \<notin> {MOBILE, FIXED_LINE, FIXED_LINE_OR_MOBILE}" by blast
  qed
  from pos neg reg show ?thesis by blast
qed

text \<open>The toll-free number \<open>1800 123 4567\<close> parses to a valid number from both candidates.\<close>

theorem validate_phone_excluded_type_witness:
  "candidates ''1800 123 4567'' = [''18001234567'', ''+9118001234567'']
   \<and> indian_candidates sample_phonenumbers ''1800 123 4567''
   \<and> parse sample_phonenumbers ''18001234567'' ''IN'' = Some ''18001234567''
   \<and> parse sample_phonenumbers ''+9118001234567'' ''IN'' = Some ''18001234567''
   \<and> is_valid_number sample_phonenumbers ''18001234567''
   \<and> is_valid_number_for_region sample_phonenumbers ''18001234567'' ''IN''
   \<and> number_type sample_phonenumbers ''18001234567'' = TOLL_FREE
   \<and> validate_phone sample_phonenumbers (Some ''1800 123 4567'') = None"
proof -
  have c: "candidates ''1800 123 4567'' = [''18001234567'', ''+9118001234567'']"
    by (simp add: candidates_def cleaned_def is_digit_def lstrip_chars_def)
  have i: "indian_candidates sample_phonenumbers ''1800 123 4567''"
    unfolding indian_candidates_def c by (simp add: sample_phonenumbers_def)
  have h: "\<forall>c \<in> set (candidates ''1800 123 4567'').
       \<forall>p. parse sample_phonenumbers c ''IN'' = Some p
        \<longrightarrow> is_valid_number_for_region sample_phonenumbers p ''IN''
        \<longrightarrow> number_type sample_phonenumbers p \<notin> {MOBILE, FIXED_LINE, FIXED_LINE_OR_MOBILE}"
    unfolding c by (simp add: sample_phonenumbers_def)
  have n: "validate_phone sample_phonenumbers (Some ''1800 123 4567'') = None"
    using validate_phone_excluded_type [of "''1800 123 4567''" sample_phonenumbers] i h by blast
  have p: "parse sample_phonenumbers ''18001234567'' ''IN'' = Some ''18001234567''"
    "parse sample_phonenumbers ''+9118001234567'' ''IN'' = Some ''18001234567''"
    "is_valid_number sample_phonenumbers ''18001234567''"
    "is_valid_number_for_region sample_phonenumbers ''18001234567'' ''IN''"
    "number_type sample_phonenumbers ''18001234567'' = TOLL_FREE"
    by (simp_all add: sample_phonenumbers_def)
  show ?thesis
    by (intro conjI c i p n)
qed

section \<open>Claims about record extraction\<close>

text \<open>
  C8. In every record the extractor returns, the phone-validity flag is \<open>Yes\<close> if and
  only if the phone field holds the value validation returned for the listing's
  phone, and it is \<open>Yes\<close> or \<open>No\<close>. When validation returns no value, the phone field
  holds the placeholder \<open>Not Available\<close> and the flag is \<open>No\<close>. When the library
  formats E.164 numbers with a leading \<open>+\<close>, the placeholder differs from every value
  validation can return, and the flag is \<open>No\<close> exactly when the phone field holds the
  placeholder.
\<close>

theorem extract_record_phone_flag:
  assumes "extract_record L TODAY place category = Some r"
  shows "(map_of r ''Phone Valid'' = Some (Text ''Yes'') \<longleftrightarrow>
            (\<exists>v. validate_phone L (phone place) = Some v
                 \<and> map_of r ''Phone Number (E.164)'' = Some (Text v)))
       \<and> (map_of r ''Phone Valid'' = Some (Text ''Yes'') \<or> map_of r ''Phone Valid'' = Some (Text ''No''))
       \<and> (validate_phone L (phone place) = None \<longrightarrow>
            map_of r ''Phone Number (E.164)'' = Some (Text ''Not Available'')
            \<and> map_of r ''Phone Valid'' = Some (Text ''No''))
       \<and> ((\<forall>p. \<exists>rest. format_number L p E164 = CHR ''+'' # rest) \<longrightarrow>
            (\<forall>raw. validate_phone L raw \<noteq> Some ''Not Available'')
            \<and> (map_of r ''Phone Valid'' = Some (Text ''No'') \<longleftrightarrow>
                 map_of r ''Phone Number (E.164)'' = Some (Text ''Not Available'')))"
proof -
  let ?v = "validate_phone L (phone place)"
  note num = extract_record_fields(2) [OF assms]
  note flag = extract_record_fields(3) [OF assms]
  have a: "map_of r ''Phone Valid'' = Some (Text ''Yes'') \<longleftrightarrow>
            (\<exists>v. ?v = Some v \<and> map_of r ''Phone Number (E.164)'' = Some (Text v))"
  proof (cases ?v)
    case None
    then show ?thesis unfolding num flag by (simp add: truthy_def)
  next
    case (Some v)
    show ?thesis
    proof (cases "v = []")
      case True
      with Some show ?thesis unfolding num flag by (simp add: truthy_def)
    next
      case False
      with Some show ?thesis unfolding num flag by (simp add: truthy_def get_or_def)
    qed
  qed
  have b: "map_of r ''Phone Valid'' = Some (Text ''Yes'') \<or> map_of r ''Phone Valid'' = Some (Text ''No'')"
    unfolding flag by (cases "truthy ?v") simp_all
  have c: "?v = None \<longrightarrow> map_of r ''Phone Number (E.164)'' = Some (Text ''Not Available'')
            \<and> map_of r ''Phone Valid'' = Some (Text ''No'')"
    unfolding num flag by (simp add: truthy_def)
  have d: "(\<forall>p. \<exists>rest. format_number L p E164 = CHR ''+'' # rest) \<longrightarrow>
            (\<forall>raw. validate_phone L raw \<noteq> Some ''Not Available'')
            \<and> (map_of r ''Phone Valid'' = Some (Text ''No'') \<longleftrightarrow>
                 map_of r ''Phone Number (E.164)'' = Some (Text ''Not Available''))"
  proof (intro impI conjI)
    assume h: "\<forall>p. \<exists>rest. format_number L p E164 = CHR ''+'' # rest"
    show "\<forall>raw. validate_phone L raw \<noteq> Some ''Not Available''"
      using validate_phone_not_placeholder [OF h] by blast
    have nv: "?v \<noteq> Some ''Not Available''"
      by (rule validate_phone_not_placeholder [OF h])
    show "map_of r ''Phone Valid'' = Some (Text ''No'') \<longleftrightarrow>
                 map_of r ''Phone Number (E.164)'' = Some (Text ''Not Available'')"
    proof (cases "truthy ?v")
      case True
      then obtain v where v: "?v = Some v" by (cases ?v) (auto simp: truthy_def)
      with nv have "v \<noteq> ''Not Available''" by simp
      with True v show ?thesis unfolding num flag by (simp add: get_or_def)
    next
      case False
      then show ?thesis unfolding num flag by simp
    qed
  qed
  show ?thesis
    by (intro conjI a b c d)
qed

text \<open>
  The scenario of the specification: a listing with the phone \<open>098765 43210\<close> gives
  the phone \<open>+919876543210\<close> and the flag \<open>Yes\<close>.
\<close>

theorem extract_record_phone_flag_witness:
  "extract_record sample_phonenumbers ''26-Feb-2026'' sample_place ''Tent House Bangalore''
     = Some sample_record
   \<and> (\<forall>p. \<exists>rest. format_number sample_phonenumbers p E164 = CHR ''+'' # rest)
   \<and> validate_phone sample_phonenumbers (phone sample_place) = Some ''+919876543210''
   \<and> map_of sample_record ''Phone Number (E.164)'' = Some (Text ''+919876543210'')
   \<and> map_of sample_record ''Phone Valid'' = Some (Text ''Yes'')
   \<and> map_of sample_record ''Phone Valid'' \<noteq> Some (Text ''No'')
   \<and> map_of sample_record ''Phone Number (E.164)'' \<noteq> Some (Text ''Not Available'')"
proof -
  have e: "\<forall>p. \<exists>rest. format_number sample_phonenumbers p E164 = CHR ''+'' # rest"
    by (simp add: sample_phonenumbers_def)
  have v: "validate_phone sample_phonenumbers (phone sample_place) = Some ''+919876543210''"
    using sample_validate by (simp add: sample_place_def)
  have n: "map_of sample_record ''Phone Number (E.164)'' = Some (Text ''+919876543210'')"
    by (simp add: sample_record_def)
  from extract_record_phone_flag [OF sample_extract] e v n
  have "map_of sample_record ''Phone Valid'' = Some (Text ''Yes'')"
    and "map_of sample_record ''Phone Valid'' = Some (Text ''No'') \<longleftrightarrow>
         map_of sample_record ''Phone Number (E.164)'' = Some (Text ''Not Available'')"
    by blast+
  with sample_extract e v n show ?thesis by simp
qed

text \<open>
  C9, as the specification states it, has only a trailing region qualifier removed
  from the category. The code removes every occurrence: for the category
  \<open>Tent Bangalore House Bangalore\<close> the record's category is \<open>Tent House\<close>, and the
  specification's is \<open>Tent Bangalore House\<close>.
\<close>

theorem extract_record_category_inner_qualifier:
  "field_of ''Category''
     (extract_record sample_phonenumbers ''26-Feb-2026'' sample_place ''Tent Bangalore House Bangalore'')
   \<noteq> Some (Text (spec_category ''Tent Bangalore House Bangalore''))"
proof -
  have s: "spec_category ''Tent Bangalore House Bangalore'' = ''Tent Bangalore House''"
    by (simp add: spec_category_def endswith_def text_defs)
  have c: "str_strip (str_replace '' Bangalore'' '''' ''Tent Bangalore House Bangalore'') = ''Tent House''"
    by (simp add: text_defs)
  have "field_of ''Category''
     (extract_record sample_phonenumbers ''26-Feb-2026'' sample_place ''Tent Bangalore House Bangalore'')
     = Some (Text ''Tent House'')"
    unfolding extract_record_def Let_def c using sample_open
    by (simp add: field_of_def split del: if_split)
  then show ?thesis unfolding s by simp
qed

text \<open>
  C9, amended. For every listing that is not closed and every category string, the
  category field of the record is the category with every occurrence of the region
  qualifier \<open> Bangalore\<close> removed (one pass from the left) and the surrounding whitespace
  trimmed. When the qualifier occurs at the end of the category and nowhere before, this
  is the category without its trailing qualifier, trimmed; when the qualifier does not
  occur, it is the category, trimmed.
\<close>

theorem extract_record_category:
  assumes "extract_record L TODAY place category = Some r"
  shows "map_of r ''Category'' = Some (Text (str_strip (str_replace '' Bangalore'' '''' category)))
       \<and> (\<forall>base. category = base @ '' Bangalore'' \<and> \<not> contains '' Bangalore'' (butlast category)
            \<longrightarrow> map_of r ''Category'' = Some (Text (str_strip base)))
       \<and> (\<not> contains '' Bangalore'' category \<longrightarrow>
            map_of r ''Category'' = Some (Text (str_strip category)))"
proof -
  note c = extract_record_fields(1) [OF assms]
  have 2: "\<forall>base. category = base @ '' Bangalore'' \<and> \<not> contains '' Bangalore'' (butlast category)
            \<longrightarrow> map_of r ''Category'' = Some (Text (str_strip base))"
  proof (intro allI impI)
    fix base
    assume h: "category = base @ '' Bangalore'' \<and> \<not> contains '' Bangalore'' (butlast category)"
    then have "str_replace '' Bangalore'' '''' (base @ '' Bangalore'') = base @ ''''"
      by (intro str_replace_suffix_only) auto
    with h have "str_replace '' Bangalore'' '''' category = base" by simp
    with c show "map_of r ''Category'' = Some (Text (str_strip base))" by (simp only:)
  qed
  have 3: "\<not> contains '' Bangalore'' category \<longrightarrow>
            map_of r ''Category'' = Some (Text (str_strip category))"
  proof
    assume "\<not> contains '' Bangalore'' category"
    then have "str_replace '' Bangalore'' '''' category = category"
      by (simp add: str_replace_absent)
    with c show "map_of r ''Category'' = Some (Text (str_strip category))" by (simp only:)
  qed
  show ?thesis
    by (intro conjI c 2 3)
qed

theorem extract_record_category_witness:
  "extract_record sample_phonenumbers ''26-Feb-2026'' sample_place ''Tent House Bangalore''
     = Some sample_record
   \<and> ''Tent House Bangalore'' = ''Tent House'' @ '' Bangalore''
   \<and> \<not> contains '' Bangalore'' (butlast ''Tent House Bangalore'')
   \<and> map_of sample_record ''Category'' = Some (Text ''Tent House'')"
proof -
  have a: "''Tent House Bangalore'' = ''Tent House'' @ '' Bangalore''" by simp
  have b: "\<not> contains '' Bangalore'' (butlast ''Tent House Bangalore'')" by simp
  have s: "str_strip ''Tent House'' = ''Tent House''" by (simp add: text_defs)
  have imp: "''Tent House Bangalore'' = ''Tent House'' @ '' Bangalore''
          \<and> \<not> contains '' Bangalore'' (butlast ''Tent House Bangalore'')
        \<longrightarrow> map_of sample_record ''Category'' = Some (Text (str_strip ''Tent House''))"
    by (rule spec [OF conjunct1 [OF conjunct2 [OF extract_record_category [OF sample_extract]]]])
  have c: "map_of sample_record ''Category'' = Some (Text ''Tent House'')"
    using mp [OF imp conjI [OF a b]] unfolding s .
  show ?thesis
    by (intro conjI sample_extract a b c)
qed

end
